theory Spec2Isabelle
  imports Main "HOL-Library.AList" "HOL-Library.Sublist"
begin

section \<open>Python strings\<close>

text \<open>
  A Python \<open>str\<close> is modelled as a \<open>string\<close>: one \<open>char\<close> per code point, so the
  model covers the code points 0 to 255. The operations below are the ones
  \<open>shell_emulator.py\<close> applies to strings, directly or through \<open>os.path\<close>.
\<close>

definition startswith :: "string \<Rightarrow> string \<Rightarrow> bool" where
  \<comment> \<open>\<open>s.startswith(p)\<close>\<close>
  "startswith s p \<longleftrightarrow> prefix p s"

definition endswith :: "string \<Rightarrow> string \<Rightarrow> bool" where
  \<comment> \<open>\<open>s.endswith(p)\<close>\<close>
  "endswith s p \<longleftrightarrow> suffix p s"

fun split_sep :: "char \<Rightarrow> string \<Rightarrow> string list" where
  \<comment> \<open>\<open>s.split(sep)\<close> for a separator of one character: one more piece than separators\<close>
  "split_sep c [] = [[]]"
| "split_sep c (x # xs) =
     (if x = c then [] # split_sep c xs
      else (case split_sep c xs of [] \<Rightarrow> [[x]] | w # ws \<Rightarrow> (x # w) # ws))"

fun join :: "string \<Rightarrow> string list \<Rightarrow> string" where
  \<comment> \<open>\<open>sep.join(ws)\<close>\<close>
  "join sep [] = []"
| "join sep [w] = w"
| "join sep (w # ws) = w @ sep @ join sep ws"

definition isspace :: "char \<Rightarrow> bool" where
  \<comment> \<open>the code points below 256 that \<open>str.isspace\<close> accepts\<close>
  "isspace c \<longleftrightarrow>
     (let n = (of_char c :: nat)
      in (9 \<le> n \<and> n \<le> 13) \<or> (28 \<le> n \<and> n \<le> 32) \<or> n = 133 \<or> n = 160)"

definition strip :: "string \<Rightarrow> string" where
  \<comment> \<open>\<open>s.strip()\<close>\<close>
  "strip s = rev (dropWhile isspace (rev (dropWhile isspace s)))"

fun split_where :: "(char \<Rightarrow> bool) \<Rightarrow> string \<Rightarrow> string list" where
  "split_where P [] = [[]]"
| "split_where P (x # xs) =
     (if P x then [] # split_where P xs
      else (case split_where P xs of [] \<Rightarrow> [[x]] | w # ws \<Rightarrow> (x # w) # ws))"

definition split_ws :: "string \<Rightarrow> string list" where
  \<comment> \<open>\<open>s.split()\<close>: the pieces between runs of whitespace, none of them empty\<close>
  "split_ws s = filter (\<lambda>w. w \<noteq> []) (split_where isspace s)"

definition digit_char :: "nat \<Rightarrow> char" where
  \<comment> \<open>the decimal digit of a number below ten\<close>
  "digit_char d = ''0123456789'' ! d"

function str_nat :: "nat \<Rightarrow> string" where
  "str_nat n = (if n < 10 then [digit_char n] else str_nat (n div 10) @ [digit_char (n mod 10)])"
  by pat_completeness auto
termination
  by (relation "measure id") auto

declare str_nat.simps [simp del]

definition str_int :: "int \<Rightarrow> string" where
  \<comment> \<open>\<open>str(i)\<close> for an unbounded integer, as the f-string of \<open>command_du\<close> formats it\<close>
  "str_int i = (if i < 0 then CHR ''-'' # str_nat (nat (- i)) else str_nat (nat i))"

section \<open>\<open>os.path\<close> on POSIX\<close>

definition path_join :: "string \<Rightarrow> string \<Rightarrow> string" where
  \<comment> \<open>\<open>posixpath.join(a, b)\<close> with one component \<open>b\<close>\<close>
  "path_join a b =
     (if startswith b ''/'' then b
      else if a = [] \<or> endswith a ''/'' then a @ b
      else a @ ''/'' @ b)"

definition norm_step :: "nat \<Rightarrow> string list \<Rightarrow> string \<Rightarrow> string list" where
  \<comment> \<open>the body of the loop of \<open>posixpath.normpath\<close> over the components\<close>
  "norm_step initial_slashes new_comps cmp =
     (if cmp = [] \<or> cmp = ''.'' then new_comps
      else if cmp \<noteq> ''..'' \<or> (initial_slashes = 0 \<and> new_comps = [])
              \<or> (new_comps \<noteq> [] \<and> last new_comps = ''..'')
      then new_comps @ [cmp]
      else if new_comps \<noteq> [] then butlast new_comps
      else new_comps)"

fun norm_loop :: "nat \<Rightarrow> string list \<Rightarrow> string list \<Rightarrow> string list" where
  "norm_loop k new_comps [] = new_comps"
| "norm_loop k new_comps (cmp # comps) = norm_loop k (norm_step k new_comps cmp) comps"

definition initial_slashes_of :: "string \<Rightarrow> nat" where
  \<comment> \<open>POSIX keeps exactly two leading slashes and treats three or more as one\<close>
  "initial_slashes_of path =
     (if startswith path ''/''
      then (if startswith path ''//'' \<and> \<not> startswith path ''///'' then 2 else 1)
      else 0)"

definition normpath :: "string \<Rightarrow> string" where
  \<comment> \<open>\<open>posixpath.normpath(path)\<close>\<close>
  "normpath path =
     (if path = [] then ''.''
      else
        let initial_slashes = initial_slashes_of path;
            comps = norm_loop initial_slashes [] (split_sep CHR ''/'' path);
            p = join ''/'' comps;
            p' = (if initial_slashes \<noteq> 0 then replicate initial_slashes CHR ''/'' @ p else p)
        in if p' = [] then ''.'' else p')"

section \<open>The shell emulator\<close>

text \<open>
  \<open>self.fs\<close> is a Python dictionary from member names to \<open>{'type': ..., 'size': ...}\<close>.
  Its iteration order is the insertion order, which \<open>command_ls\<close> shows, so the table
  is an association list; \<open>AList.update\<close> is the dictionary's item assignment (an
  existing key keeps its place, a new key goes to the end).
\<close>

record entry =
  etype :: string
  esize :: int

type_synonym vfs = "(string \<times> entry) list"

record member =
  \<comment> \<open>what \<open>load_fs\<close> reads of a \<open>tarfile.TarInfo\<close>\<close>
  mname :: string
  misdir :: bool
  msize :: int

definition load_fs :: "member list \<Rightarrow> vfs" where
  "load_fs members =
     fold (\<lambda>m tbl. AList.update (mname m)
             \<lparr>etype = (if misdir m then ''dir'' else ''file''), esize = msize m\<rparr> tbl)
          members []"

datatype exn = KeyError string | IndexError | SystemExit int

definition getindex :: "'a list \<Rightarrow> nat \<Rightarrow> exn + 'a" where
  \<comment> \<open>\<open>args[i]\<close> for a literal index \<open>i \<ge> 0\<close>, which raises \<open>IndexError\<close> out of range\<close>
  "getindex xs i = (if i < length xs then Inr (xs ! i) else Inl IndexError)"

definition contains :: "vfs \<Rightarrow> string \<Rightarrow> bool" where
  \<comment> \<open>\<open>path in self.fs\<close>\<close>
  "contains tbl k \<longleftrightarrow> map_of tbl k \<noteq> None"

definition getitem :: "vfs \<Rightarrow> string \<Rightarrow> exn + entry" where
  \<comment> \<open>\<open>self.fs[path]\<close>, which raises \<open>KeyError\<close> on a missing key\<close>
  "getitem tbl k = (case map_of tbl k of None \<Rightarrow> Inl (KeyError k) | Some e \<Rightarrow> Inr e)"

definition keys :: "vfs \<Rightarrow> string list" where
  \<comment> \<open>\<open>for name in self.fs\<close>\<close>
  "keys tbl = map fst tbl"

text \<open>
  The conditional expressions \<open>args[0] if args else d\<close> and the unpacking
  \<open>parts[0], parts[1:]\<close> after \<open>if not parts: return\<close> are case distinctions on the
  list. \<open>str\<close> of an integer and the f-strings are total (the interpreter's optional
  limit on the number of digits is not modelled).

  The session. The XML log file is modelled by the list of its \<open>entry\<close> elements,
  each an (action, details) pair; \<open>log_action\<close> appends one element.
\<close>

record session =
  hostname :: string
  current_dir :: string
  fs :: vfs
  log :: "(string \<times> string) list"

definition init_session :: "string \<Rightarrow> member list \<Rightarrow> session" where
  \<comment> \<open>\<open>__init__\<close>: \<open>current_dir = '/'\<close>, the table loaded, the log created empty\<close>
  "init_session h members = \<lparr>hostname = h, current_dir = ''/'', fs = load_fs members, log = []\<rparr>"

definition log_action :: "string \<Rightarrow> string \<Rightarrow> session \<Rightarrow> session" where
  "log_action action details s = s\<lparr>log := log s @ [(action, details)]\<rparr>"

definition resolve_path :: "session \<Rightarrow> string \<Rightarrow> string" where
  "resolve_path s path =
     normpath (if \<not> startswith path ''/'' then path_join (current_dir s) path else path)"

definition in_fs_and_dir :: "vfs \<Rightarrow> string \<Rightarrow> exn + bool" where
  \<comment> \<open>\<open>path in self.fs and self.fs[path]['type'] == 'dir'\<close>: the lookup runs only
      after the membership test succeeded\<close>
  "in_fs_and_dir tbl path =
     (if contains tbl path
      then (case getitem tbl path of Inl e \<Rightarrow> Inl e | Inr ent \<Rightarrow> Inr (etype ent = ''dir''))
      else Inr False)"

type_synonym handler = "string list \<Rightarrow> session \<Rightarrow> (exn + string) \<times> session"

definition command_ls :: handler where
  "command_ls args s =
     (let path = resolve_path s (case args of [] \<Rightarrow> ''.'' | a # _ \<Rightarrow> a)
      in case in_fs_and_dir (fs s) path of
           Inl e \<Rightarrow> (Inl e, s)
         | Inr True \<Rightarrow>
             (let contents = filter (\<lambda>name. startswith name path \<and> name \<noteq> path) (keys (fs s))
              in (Inr (join [CHR 0x0A] contents), log_action ''ls'' path s))
         | Inr False \<Rightarrow>
             (Inr (''ls: cannot access '' @ [CHR 0x27] @ path @ [CHR 0x27]
                   @ '': No such file or directory''), s))"

definition command_cd :: handler where
  "command_cd args s =
     (let path = (case args of [] \<Rightarrow> ''/'' | a # _ \<Rightarrow> resolve_path s a)
      in case in_fs_and_dir (fs s) path of
           Inl e \<Rightarrow> (Inl e, s)
         | Inr True \<Rightarrow> (Inr [], log_action ''cd'' path (s\<lparr>current_dir := path\<rparr>))
         | Inr False \<Rightarrow> (Inr (''cd: '' @ path @ '': No such file or directory''), s))"

definition command_exit :: handler where
  \<comment> \<open>\<open>exit(0)\<close> raises \<open>SystemExit\<close> after the log record was written\<close>
  "command_exit args s = (Inl (SystemExit 0), log_action ''exit'' [] s)"

definition command_uname :: handler where
  "command_uname args s = (Inr ''UNIX Shell Emulator'', log_action ''uname'' [] s)"

definition command_chmod :: handler where
  "command_chmod args s =
     (if length args \<noteq> 2 then (Inr ''chmod: missing operand'', s)
      else
        case getindex args 1 of
          Inl e \<Rightarrow> (Inl e, s)
        | Inr a1 \<Rightarrow>
            (let path = resolve_path s a1
             in if contains (fs s) path
                then (case getindex args 0 of
                        Inl e \<Rightarrow> (Inl e, s)
                      | Inr a0 \<Rightarrow> (Inr [], log_action ''chmod'' (a0 @ '' '' @ path) s))
                else (Inr (''chmod: cannot access '' @ [CHR 0x27] @ path @ [CHR 0x27]
                           @ '': No such file or directory''), s)))"

fun sum_sizes :: "vfs \<Rightarrow> string list \<Rightarrow> exn + int" where
  \<comment> \<open>\<open>sum(self.fs[name]['size'] for name in names)\<close>\<close>
  "sum_sizes tbl [] = Inr 0"
| "sum_sizes tbl (name # names) =
     (case getitem tbl name of
        Inl e \<Rightarrow> Inl e
      | Inr ent \<Rightarrow> (case sum_sizes tbl names of Inl e \<Rightarrow> Inl e | Inr t \<Rightarrow> Inr (esize ent + t)))"

definition command_du :: handler where
  "command_du args s =
     (let path = (case args of [] \<Rightarrow> current_dir s | a # _ \<Rightarrow> resolve_path s a)
      in if contains (fs s) path
         then (case sum_sizes (fs s) (filter (\<lambda>name. startswith name path) (keys (fs s))) of
                 Inl e \<Rightarrow> (Inl e, s)
               | Inr sz \<Rightarrow> (Inr (str_int sz @ [CHR 0x09] @ path), log_action ''du'' path s))
         else (Inr (''du: cannot access '' @ [CHR 0x27] @ path @ [CHR 0x27]
                    @ '': No such file or directory''), s))"

definition commands :: "(string \<times> handler) list" where
  \<comment> \<open>the dispatch dictionary of \<open>run_command\<close>\<close>
  "commands =
     [(''ls'', command_ls), (''cd'', command_cd), (''exit'', command_exit),
      (''uname'', command_uname), (''chmod'', command_chmod), (''du'', command_du)]"

definition run_command :: "string \<Rightarrow> session \<Rightarrow> (exn + string) \<times> session" where
  "run_command command_line s =
     (case split_ws (strip command_line) of
        [] \<Rightarrow> (Inr [], s)
      | command # args \<Rightarrow>
          (case map_of commands command of
             Some h \<Rightarrow> h args s
           | None \<Rightarrow> (Inr (command @ '': command not found''), s)))"

fun run_session :: "string list \<Rightarrow> session \<Rightarrow> session" where
  \<comment> \<open>the front end feeds one line after the other to \<open>run_command\<close>; \<open>SystemExit\<close>
      ends the process, any other exception is reported by the event loop, which goes on\<close>
  "run_session [] s = s"
| "run_session (l # ls) s =
     (case run_command l s of
        (Inl (SystemExit c), s') \<Rightarrow> s'
      | (_, s') \<Rightarrow> run_session ls s')"

section \<open>Queries on the table used in the statements\<close>

definition is_dir :: "vfs \<Rightarrow> string \<Rightarrow> bool" where
  \<comment> \<open>the path is a key of the table and its entry has type \<open>'dir'\<close>\<close>
  "is_dir tbl path = (case map_of tbl path of None \<Rightarrow> False | Some e \<Rightarrow> etype e = ''dir'')"


definition clean_comp :: "string \<Rightarrow> bool" where
  \<comment> \<open>a component that \<open>normpath\<close> keeps: not empty, not \<open>.\<close>, not \<open>..\<close>, without separator\<close>
  "clean_comp w \<longleftrightarrow> w \<noteq> [] \<and> w \<noteq> ''.'' \<and> w \<noteq> ''..'' \<and> CHR ''/'' \<notin> set w"

definition normal_abs :: "string \<Rightarrow> bool" where
  \<comment> \<open>one or two slashes followed by kept components joined by single slashes\<close>
  "normal_abs p \<longleftrightarrow> (\<exists>k cs. (k = 1 \<or> k = 2) \<and> list_all clean_comp cs \<and> p = replicate k CHR ''/'' @ join ''/'' cs)"


definition example_members :: "member list" where
  "example_members =
     [\<lparr>mname = ''/home'', misdir = True, msize = 0\<rparr>,
      \<lparr>mname = ''/home/file.txt'', misdir = False, msize = 42\<rparr>,
      \<lparr>mname = ''/home2/x'', misdir = False, msize = 7\<rparr>]"

definition example_session :: session where
  "example_session = init_session ''host'' example_members"

section \<open>Facts about the table and the handlers\<close>

lemmas eval_defs = normpath_def initial_slashes_of_def startswith_def endswith_def norm_step_def
  path_join_def resolve_path_def split_ws_def strip_def isspace_def

lemma in_fs_and_dir_eq: "in_fs_and_dir tbl p = Inr (is_dir tbl p)"
  by (cases "map_of tbl p") (simp_all add: in_fs_and_dir_def contains_def getitem_def is_dir_def)

lemma getitem_key: "k \<in> set (keys tbl) \<Longrightarrow> getitem tbl k = Inr (the (map_of tbl k))"
  by (cases "map_of tbl k") (auto simp: getitem_def keys_def map_of_eq_None_iff)

lemma sum_sizes_keys:
  "set names \<subseteq> set (keys tbl) \<Longrightarrow>
   sum_sizes tbl names = Inr (sum_list (map (\<lambda>n. esize (the (map_of tbl n))) names))"
  by (induction names) (simp_all add: getitem_key)




lemma command_ls_eq:
  "command_ls args s =
     (let path = resolve_path s (case args of [] \<Rightarrow> ''.'' | a # _ \<Rightarrow> a)
      in if is_dir (fs s) path
         then (Inr (join [CHR 0x0A] (filter (\<lambda>name. prefix path name \<and> name \<noteq> path) (map fst (fs s)))),
               log_action ''ls'' path s)
         else (Inr (''ls: cannot access '' @ [CHR 0x27] @ path @ [CHR 0x27]
                   @ '': No such file or directory''), s))"
  by (simp add: command_ls_def in_fs_and_dir_eq Let_def startswith_def keys_def)

lemma command_cd_eq:
  "command_cd args s =
     (let path = (case args of [] \<Rightarrow> ''/'' | a # _ \<Rightarrow> resolve_path s a)
      in if is_dir (fs s) path
         then (Inr [], log_action ''cd'' path (s\<lparr>current_dir := path\<rparr>))
         else (Inr (''cd: '' @ path @ '': No such file or directory''), s))"
  by (simp add: command_cd_def in_fs_and_dir_eq Let_def)


lemma resolve_root: "resolve_path s ''/'' = ''/''"
  by (simp add: eval_defs)

lemma example_fs:
  "fs example_session =
     [(''/home'', \<lparr>etype = ''dir'', esize = 0\<rparr>),
      (''/home/file.txt'', \<lparr>etype = ''file'', esize = 42\<rparr>),
      (''/home2/x'', \<lparr>etype = ''file'', esize = 7\<rparr>)]"
  by (simp add: example_session_def init_session_def example_members_def load_fs_def)

lemma example_cwd: "current_dir example_session = ''/''"
  by (simp add: example_session_def init_session_def)

lemma example_not_root: "\<not> is_dir (fs example_session) ''/''"
  by (simp add: example_fs is_dir_def)


lemma example_home: "resolve_path example_session ''/home'' = ''/home''"
  by (simp add: eval_defs)

lemma example_is_dir_home: "is_dir (fs example_session) ''/home''"
  by (simp add: example_fs is_dir_def)

lemma example_nope: "resolve_path example_session ''/nope'' = ''/nope''"
  by (simp add: eval_defs)


lemma run_command_parts:
  "split_ws (strip line) = v # args \<Longrightarrow>
   run_command line s = (case map_of commands v of Some h \<Rightarrow> h args s
                         | None \<Rightarrow> (Inr (v @ '': command not found''), s))"
  by (simp add: run_command_def)

lemma run_command_empty: "split_ws (strip line) = [] \<Longrightarrow> run_command line s = (Inr [], s)"
  by (simp add: run_command_def)


lemma commands_known:
  "map_of commands ''ls'' = Some command_ls"
  "map_of commands ''cd'' = Some command_cd"
  "map_of commands ''exit'' = Some command_exit"
  "map_of commands ''uname'' = Some command_uname"
  "map_of commands ''chmod'' = Some command_chmod"
  "map_of commands ''du'' = Some command_du"
  by (simp_all add: commands_def)

lemma handler_cases:
  "map_of commands v = Some h \<Longrightarrow>
   h = command_ls \<or> h = command_cd \<or> h = command_exit \<or> h = command_uname
   \<or> h = command_chmod \<or> h = command_du"
  by (auto simp: commands_def split: if_splits)

lemma run_command_cases:
  assumes "P (Inr [], s)"
    and "\<And>v. P (Inr (v @ '': command not found''), s)"
    and "\<And>args. P (command_ls args s)"
    and "\<And>args. P (command_cd args s)"
    and "\<And>args. P (command_exit args s)"
    and "\<And>args. P (command_uname args s)"
    and "\<And>args. P (command_chmod args s)"
    and "\<And>args. P (command_du args s)"
  shows "P (run_command line s)"
proof (cases "split_ws (strip line)")
  case Nil
  with assms(1) show ?thesis by (simp add: run_command_empty)
next
  case (Cons v args)
  show ?thesis
  proof (cases "map_of commands v")
    case None
    with Cons assms(2) show ?thesis by (simp add: run_command_parts)
  next
    case (Some h)
    from handler_cases [OF Some] Cons Some assms(3-8) show ?thesis
      by (auto simp: run_command_parts)
  qed
qed

lemma du_sum_keys:
  "sum_sizes tbl (filter P (keys tbl))
   = Inr (sum_list (map (\<lambda>n. esize (the (map_of tbl n))) (filter P (keys tbl))))"
  by (rule sum_sizes_keys) auto

lemma command_du_log:
  "command_du args s =
     (let path = (case args of [] \<Rightarrow> current_dir s | a # _ \<Rightarrow> resolve_path s a)
      in if contains (fs s) path
         then (Inr (str_int (sum_list (map (\<lambda>n. esize (the (map_of (fs s) n)))
                      (filter (\<lambda>name. startswith name path) (keys (fs s))))) @ [CHR 0x09] @ path),
               log_action ''du'' path s)
         else (Inr (''du: cannot access '' @ [CHR 0x27] @ path @ [CHR 0x27]
                    @ '': No such file or directory''), s))"
  by (simp add: command_du_def du_sum_keys Let_def)



subsection \<open>Normalised absolute paths\<close>

lemma split_sep_nonempty: "split_sep c s \<noteq> []"
  by (induction s) (auto split: list.splits)

lemma split_sep_no_sep: "w \<in> set (split_sep c s) \<Longrightarrow> c \<notin> set w"
proof (induction s arbitrary: w)
  case Nil
  then show ?case by simp
next
  case (Cons x s)
  then show ?case by (auto split: if_splits list.splits)
qed

lemma split_sep_free: "c \<notin> set w \<Longrightarrow> split_sep c w = [w]"
  by (induction w) auto

lemma split_sep_append: "c \<notin> set w \<Longrightarrow> split_sep c (w @ c # rest) = w # split_sep c rest"
  by (induction w) auto

lemma split_join:
  "cs \<noteq> [] \<Longrightarrow> \<forall>w\<in>set cs. c \<notin> set w \<Longrightarrow> split_sep c (join [c] cs) = cs"
proof (induction cs)
  case Nil
  then show ?case by simp
next
  case (Cons w cs)
  then show ?case
    by (cases cs) (simp_all add: split_sep_free split_sep_append)
qed

lemma norm_step_clean:
  "0 < k \<Longrightarrow> clean_comp w \<Longrightarrow> norm_step k nc w = nc @ [w]"
  by (simp add: norm_step_def clean_comp_def)

lemma norm_loop_clean:
  "0 < k \<Longrightarrow> list_all clean_comp cs \<Longrightarrow> norm_loop k nc cs = nc @ cs"
  by (induction cs arbitrary: nc) (simp_all add: norm_step_clean)

lemma norm_step_keeps_clean:
  assumes "0 < k" "list_all clean_comp nc" "CHR ''/'' \<notin> set w"
  shows "list_all clean_comp (norm_step k nc w)"
proof -
  have "last nc \<noteq> ''..''" if "nc \<noteq> []"
    using that assms(2) last_in_set [OF that] by (auto simp: list_all_iff clean_comp_def)
  moreover have "list_all clean_comp (butlast nc)"
    using assms(2) by (auto simp: list_all_iff dest: in_set_butlastD)
  ultimately show ?thesis
    using assms by (auto simp: norm_step_def clean_comp_def)
qed

lemma norm_loop_keeps_clean:
  "0 < k \<Longrightarrow> list_all clean_comp nc \<Longrightarrow> \<forall>w\<in>set comps. CHR ''/'' \<notin> set w \<Longrightarrow>
   list_all clean_comp (norm_loop k nc comps)"
  by (induction comps arbitrary: nc) (simp_all add: norm_step_keeps_clean)

lemma join_clean_no_slash:
  "list_all clean_comp cs \<Longrightarrow> \<not> prefix ''/'' (join ''/'' cs)"
proof (cases cs)
  case Nil
  then show ?thesis by simp
next
  case (Cons w ws)
  assume "list_all clean_comp cs"
  with Cons have "w \<noteq> []" "hd w \<noteq> CHR ''/''"
    by (auto simp: clean_comp_def dest: hd_in_set)
  then obtain x xs where "w = x # xs" "x \<noteq> CHR ''/''" by (cases w) auto
  with Cons show ?thesis by (cases ws) simp_all
qed

lemma initial_slashes_normal:
  assumes "list_all clean_comp cs" "k = 1 \<or> k = 2"
  shows "initial_slashes_of (replicate k CHR ''/'' @ join ''/'' cs) = k"
proof -
  from join_clean_no_slash [OF assms(1)]
  have "join ''/'' cs = [] \<or> hd (join ''/'' cs) \<noteq> CHR ''/''"
    by (cases "join ''/'' cs") auto
  then show ?thesis
    using assms(2)
    by (cases "join ''/'' cs") (auto simp: initial_slashes_of_def startswith_def numeral_2_eq_2)
qed

lemma split_leading:
  "split_sep CHR ''/'' (replicate k CHR ''/'' @ p) = replicate k [] @ split_sep CHR ''/'' p"
  by (induction k) simp_all

lemma norm_loop_skip_empty: "norm_loop k nc (replicate n [] @ comps) = norm_loop k nc comps"
  by (induction n) (simp_all add: norm_step_def)

lemma norm_loop_join:
  assumes "0 < k" "list_all clean_comp cs"
  shows "norm_loop k [] (split_sep CHR ''/'' (join ''/'' cs)) = cs"
proof (cases cs)
  case Nil
  then show ?thesis by (simp add: norm_step_def)
next
  case (Cons w ws)
  with assms(2) have "split_sep CHR ''/'' (join ''/'' cs) = cs"
    by (intro split_join) (auto simp: list_all_iff clean_comp_def)
  with assms show ?thesis by (simp add: norm_loop_clean)
qed

lemma normpath_normal:
  assumes "list_all clean_comp cs" "k = 1 \<or> k = 2"
  shows "normpath (replicate k CHR ''/'' @ join ''/'' cs) = replicate k CHR ''/'' @ join ''/'' cs"
proof -
  from assms(2) have k: "0 < k" by auto
  have "norm_loop k [] (split_sep CHR ''/'' (replicate k CHR ''/'' @ join ''/'' cs)) = cs"
    by (simp add: split_leading norm_loop_skip_empty norm_loop_join [OF k assms(1)])
  with k assms show ?thesis
    by (auto simp: normpath_def initial_slashes_normal Let_def)
qed

lemma normpath_abs_normal:
  assumes "startswith p ''/''"
  shows "normal_abs (normpath p)"
proof -
  let ?k = "initial_slashes_of p"
  let ?cs = "norm_loop ?k [] (split_sep CHR ''/'' p)"
  from assms have k: "?k = 1 \<or> ?k = 2" by (simp add: initial_slashes_of_def)
  then have "0 < ?k" by auto
  then have c: "list_all clean_comp ?cs"
    by (intro norm_loop_keeps_clean) (auto dest: split_sep_no_sep)
  from assms have "p \<noteq> []" by (auto simp: startswith_def)
  with k have "normpath p = replicate ?k CHR ''/'' @ join ''/'' ?cs"
    by (auto simp: normpath_def Let_def)
  with k c show ?thesis unfolding normal_abs_def by blast
qed

lemma normpath_idem_abs:
  assumes "normal_abs p"
  shows "normpath p = p"
proof -
  from assms obtain k cs where "k = 1 \<or> k = 2" "list_all clean_comp cs"
    "p = replicate k CHR ''/'' @ join ''/'' cs"
    unfolding normal_abs_def by blast
  then show ?thesis using normpath_normal [of cs k] by simp
qed

lemma normal_abs_startswith:
  assumes "normal_abs p"
  shows "startswith p ''/''"
proof -
  from assms obtain k cs where "k = 1 \<or> k = 2" "p = replicate k CHR ''/'' @ join ''/'' cs"
    unfolding normal_abs_def by blast
  then show ?thesis by (cases k) (auto simp: startswith_def)
qed

lemma path_join_abs: "startswith d ''/'' \<Longrightarrow> startswith (path_join d p) ''/''"
  by (cases d) (auto simp: path_join_def startswith_def)

lemma resolve_path_normal:
  "startswith (current_dir s) ''/'' \<Longrightarrow> normal_abs (resolve_path s p)"
  by (simp add: resolve_path_def normpath_abs_normal path_join_abs)

lemma resolve_path_of_normal: "normal_abs p \<Longrightarrow> resolve_path s p = p"
  by (simp add: resolve_path_def normal_abs_startswith normpath_idem_abs)

lemma resolve_idem_abs:
  "startswith (current_dir s) ''/'' \<Longrightarrow> resolve_path s (resolve_path s p) = resolve_path s p"
  by (simp add: resolve_path_of_normal resolve_path_normal)

subsection \<open>Sessions\<close>

lemma run_session_induct:
  assumes "I s" and "\<And>line s. I s \<Longrightarrow> I (snd (run_command line s))"
  shows "I (run_session lines s)"
  using assms(1)
proof (induction lines arbitrary: s)
  case Nil
  then show ?case by simp
next
  case (Cons l ls)
  from assms(2) [OF Cons.prems, of l] have "I (snd (run_command l s))" .
  with Cons.IH show ?case
    by (auto split: prod.splits sum.splits exn.splits)
qed



lemma run_command_abs:
  "startswith (current_dir s) ''/'' \<Longrightarrow> startswith (current_dir (snd (run_command line s))) ''/''"
proof (rule run_command_cases)
  fix args
  assume a: "startswith (current_dir s) ''/''"
  show "startswith (current_dir (snd (command_cd args s))) ''/''"
  proof (cases args)
    case Nil
    with a show ?thesis by (simp add: command_cd_eq Let_def log_action_def startswith_def)
  next
    case (Cons x xs)
    with a resolve_path_normal [OF a, of x] show ?thesis
      by (simp add: command_cd_eq Let_def log_action_def normal_abs_startswith)
  qed
qed (simp_all add: command_ls_eq command_exit_def command_uname_def
      command_chmod_def getindex_def command_du_log Let_def log_action_def)


lemma run_session_abs:
  "startswith (current_dir s) ''/'' \<Longrightarrow> startswith (current_dir (run_session lines s)) ''/''"
  by (rule run_session_induct [where I = "\<lambda>t. startswith (current_dir t) ''/''"])
    (simp_all add: run_command_abs)


lemma init_abs: "startswith (current_dir (init_session h members)) ''/''"
  by (simp add: init_session_def startswith_def)

lemma example_sub: "resolve_path example_session ''home/../home/./file.txt'' = ''/home/file.txt''"
  by (simp add: eval_defs example_cwd)





section \<open>The root directory\<close>

text \<open>
  C1, as the code has it: the root path is a valid directory exactly when the table
  holds the key \<open>/\<close> with type \<open>dir\<close>. Then \<open>cd\<close> without arguments returns the empty
  string, sets the current directory to \<open>/\<close> and logs \<open>(cd, /)\<close>, and \<open>ls /\<close> lists the
  keys that start with \<open>/\<close> other than \<open>/\<close> itself. Otherwise both return their
  \<open>No such file or directory\<close> message and leave the session as it was.
\<close>

theorem root_needs_entry:
  "(is_dir (fs s) ''/'' \<longrightarrow>
      command_cd [] s = (Inr [], log_action ''cd'' ''/'' (s\<lparr>current_dir := ''/''\<rparr>)) \<and>
      command_ls [''/''] s =
        (Inr (join [CHR 0x0A] (filter (\<lambda>name. prefix ''/'' name \<and> name \<noteq> ''/'') (map fst (fs s)))),
         log_action ''ls'' ''/'' s)) \<and>
   (\<not> is_dir (fs s) ''/'' \<longrightarrow>
      command_cd [] s = (Inr ''cd: /: No such file or directory'', s) \<and>
      command_ls [''/''] s =
        (Inr (''ls: cannot access '' @ [CHR 0x27] @ ''/'' @ [CHR 0x27] @ '': No such file or directory''), s))"
  by (simp add: command_cd_eq command_ls_eq resolve_root Let_def)

theorem root_needs_entry_witness:
  "\<not> is_dir (fs example_session) ''/'' \<and>
   command_cd [] example_session = (Inr ''cd: /: No such file or directory'', example_session)"
  using root_needs_entry [of example_session] example_not_root by simp

text \<open>
  C1 as the specification states it fails: on a table without the key \<open>/\<close>, \<open>cd\<close>
  without arguments and \<open>ls /\<close> both answer \<open>No such file or directory\<close>.
\<close>

theorem root_not_always_valid:
  "run_command ''cd'' example_session = (Inr ''cd: /: No such file or directory'', example_session) \<and>
   run_command ''ls /'' example_session =
     (Inr (''ls: cannot access '' @ [CHR 0x27] @ ''/'' @ [CHR 0x27] @ '': No such file or directory''),
      example_session)"
  by (simp add: run_command_def commands_def eval_defs command_cd_eq command_ls_eq
      example_not_root Let_def)

section \<open>Disk usage\<close>




section \<open>Listing\<close>

text \<open>
  C4: when the resolved path \<open>p\<close> of the argument is a directory entry, \<open>ls\<close> returns the
  keys of exactly the table entries whose path starts with \<open>p\<close> and differs from \<open>p\<close>,
  joined by newlines in the order of the table, and logs \<open>(ls, p)\<close>. The test is a plain
  string prefix: on the example table \<open>ls /home\<close> also lists \<open>/home2/x\<close>.
\<close>

theorem ls_prefix_listing:
  "(is_dir (fs s) (resolve_path s a) \<longrightarrow>
      command_ls (a # rest) s =
        (Inr (join [CHR 0x0A]
               (map fst (filter (\<lambda>(k, e). prefix (resolve_path s a) k \<and> k \<noteq> resolve_path s a) (fs s)))),
         log_action ''ls'' (resolve_path s a) s)) \<and>
   (is_dir (fs s) (resolve_path s ''.'') \<longrightarrow>
      command_ls [] s =
        (Inr (join [CHR 0x0A]
               (map fst (filter (\<lambda>(k, e). prefix (resolve_path s ''.'') k \<and> k \<noteq> resolve_path s ''.'') (fs s)))),
         log_action ''ls'' (resolve_path s ''.'') s)) \<and>
   fst (run_command ''ls /home'' example_session) = Inr (''/home/file.txt'' @ [CHR 0x0A] @ ''/home2/x'')"
proof -
  have "map fst (filter (\<lambda>(k, e). prefix p k \<and> k \<noteq> p) tbl)
        = filter (\<lambda>name. prefix p name \<and> name \<noteq> p) (map fst tbl)" for p and tbl :: vfs
    by (simp add: filter_map comp_def case_prod_unfold)
  moreover have "fst (run_command ''ls /home'' example_session)
        = Inr (''/home/file.txt'' @ [CHR 0x0A] @ ''/home2/x'')"
  proof -
    have "split_ws (strip ''ls /home'') = [''ls'', ''/home'']"
      by (simp add: split_ws_def strip_def isspace_def)
    then have "run_command ''ls /home'' example_session = command_ls [''/home''] example_session"
      by (simp add: run_command_def commands_def)
    then show ?thesis
      by (simp add: command_ls_eq example_home example_is_dir_home) (simp add: example_fs)
  qed
  ultimately show ?thesis by (simp add: command_ls_eq Let_def)
qed

theorem ls_prefix_listing_witness:
  "is_dir (fs example_session) (resolve_path example_session ''/home'') \<and>
   command_ls [''/home''] example_session =
     (Inr (''/home/file.txt'' @ [CHR 0x0A] @ ''/home2/x''), log_action ''ls'' ''/home'' example_session)"
  using ls_prefix_listing [of example_session "''/home''" "[]"]
  by (simp add: example_home example_is_dir_home) (simp add: example_fs)


section \<open>Changing directory\<close>

text \<open>
  C5: \<open>cd\<close> succeeds exactly when its target (the resolved argument, or \<open>/\<close> without
  argument) is a table entry of type \<open>dir\<close>; then it returns the empty string, sets the
  current directory and appends the record \<open>(cd, path)\<close>. For every other target it
  returns \<open>cd: path: No such file or directory\<close> and the session, current directory and
  log included, is unchanged.
\<close>

theorem cd_only_into_directory:
  "(is_dir (fs s) (resolve_path s a) \<longrightarrow>
      command_cd (a # rest) s =
        (Inr [], s\<lparr>current_dir := resolve_path s a, log := log s @ [(''cd'', resolve_path s a)]\<rparr>)) \<and>
   (\<not> is_dir (fs s) (resolve_path s a) \<longrightarrow>
      command_cd (a # rest) s = (Inr (''cd: '' @ resolve_path s a @ '': No such file or directory''), s)) \<and>
   (is_dir (fs s) ''/'' \<longrightarrow>
      command_cd [] s = (Inr [], s\<lparr>current_dir := ''/'', log := log s @ [(''cd'', ''/'')]\<rparr>)) \<and>
   (\<not> is_dir (fs s) ''/'' \<longrightarrow>
      command_cd [] s = (Inr ''cd: /: No such file or directory'', s))"
  by (simp add: command_cd_eq Let_def log_action_def)

theorem cd_only_into_directory_witness:
  "\<not> is_dir (fs example_session) (resolve_path example_session ''/nope'') \<and>
   is_dir (fs example_session) (resolve_path example_session ''/home'') \<and>
   command_cd [''/nope''] example_session = (Inr ''cd: /nope: No such file or directory'', example_session) \<and>
   current_dir (snd (command_cd [''/home''] example_session)) = ''/home''"
  using cd_only_into_directory [of example_session "''/nope''" "[]"]
    cd_only_into_directory [of example_session "''/home''" "[]"]
  by (simp add: example_nope example_home example_is_dir_home) (simp add: example_fs is_dir_def)


section \<open>Simulated chmod\<close>



section \<open>Surplus arguments\<close>

text \<open>
  C9: \<open>ls\<close>, \<open>cd\<close> and \<open>du\<close> read their first argument only: the handlers give the
  same output and the same session on \<open>a # rest\<close> as on \<open>[a]\<close>, and a command line
  with these verbs and further words runs like the line with the verb and the first
  argument alone.
\<close>

theorem extra_arguments_ignored:
  "command_ls (a # rest) s = command_ls [a] s \<and>
   command_cd (a # rest) s = command_cd [a] s \<and>
   command_du (a # rest) s = command_du [a] s \<and>
   (v \<in> {''ls'', ''cd'', ''du''} \<longrightarrow> split_ws (strip line) = v # a # rest \<longrightarrow>
      split_ws (strip line') = [v, a] \<longrightarrow> run_command line s = run_command line' s)"
proof -
  have 1: "command_ls (a # rest) s = command_ls [a] s" by (simp add: command_ls_def)
  have 2: "command_cd (a # rest) s = command_cd [a] s" by (simp add: command_cd_def)
  have 3: "command_du (a # rest) s = command_du [a] s" by (simp add: command_du_def)
  have "run_command line s = run_command line' s"
    if "v \<in> {''ls'', ''cd'', ''du''}" "split_ws (strip line) = v # a # rest"
      "split_ws (strip line') = [v, a]"
    using that 1 2 3 by (auto simp: run_command_parts commands_known)
  with 1 2 3 show ?thesis by blast
qed

theorem extra_arguments_ignored_witness:
  "''ls'' \<in> {''ls'', ''cd'', ''du''} \<and> split_ws (strip ''ls /a /b'') = [''ls'', ''/a'', ''/b''] \<and>
   split_ws (strip ''ls /a'') = [''ls'', ''/a''] \<and>
   run_command ''ls /a /b'' example_session = run_command ''ls /a'' example_session"
proof -
  have 1: "split_ws (strip ''ls /a /b'') = [''ls'', ''/a'', ''/b'']"
    by (simp add: split_ws_def strip_def isspace_def)
  have 2: "split_ws (strip ''ls /a'') = [''ls'', ''/a'']"
    by (simp add: split_ws_def strip_def isspace_def)
  from extra_arguments_ignored [of "''/a''" "[''/b'']" example_session "''ls''" "''ls /a /b''" "''ls /a''"] 1 2
  show ?thesis by simp
qed

section \<open>Totality of the engine\<close>


section \<open>Log records\<close>



section \<open>Path resolution\<close>

text \<open>
  C6: resolution is idempotent for every current directory. The current directory of
  a session is always absolute: it starts as \<open>/\<close> and \<open>cd\<close> assigns only \<open>/\<close> or a
  resolved path. For every session with an absolute current directory, and so for the
  session reached from \<open>__init__\<close> by any sequence of command lines over any archive,
  resolving a resolved path gives the same path again.
\<close>

theorem resolve_idempotent:
  "(startswith (current_dir s) ''/'' \<longrightarrow>
      resolve_path s (resolve_path s p) = resolve_path s p) \<and>
   (let s' = run_session lines (init_session h members)
    in resolve_path s' (resolve_path s' p) = resolve_path s' p)"
  by (simp add: resolve_idem_abs run_session_abs init_abs Let_def)

theorem resolve_idempotent_witness:
  "startswith (current_dir example_session) ''/'' \<and>
   resolve_path example_session ''home/../home/./file.txt'' = ''/home/file.txt'' \<and>
   resolve_path example_session ''/home/file.txt'' = ''/home/file.txt''"
  using resolve_idempotent [of example_session "''home/../home/./file.txt''" "[]" "[]" "[]"]
  by (simp add: example_sub) (simp add: example_cwd startswith_def)


section \<open>The current directory\<close>



end
